theory Spec2Isabelle
  imports Main "HOL-Library.Multiset"
begin

section \<open>Python values shared by the whole program\<close>

text \<open>
  The exceptions the program can raise. Python's class hierarchy puts \<open>KeyError\<close> and
  \<open>IndexError\<close> below \<open>LookupError\<close>; \<open>StopIteration\<close> and \<open>ValueError\<close> derive from
  \<open>Exception\<close> directly.
\<close>

datatype py_error = StopIteration | ValueError | KeyError | IndexError

definition is_LookupError :: "py_error \<Rightarrow> bool" where
  "is_LookupError e = (case e of KeyError \<Rightarrow> True | IndexError \<Rightarrow> True | _ \<Rightarrow> False)"

text \<open>\<open>xs[i]\<close>: a negative index counts from the end, an index out of range raises.\<close>

definition py_index :: "'a list \<Rightarrow> int \<Rightarrow> py_error + 'a" where
  "py_index xs i =
     (if 0 \<le> i \<and> i < int (length xs) then Inr (xs ! nat i)
      else if i < 0 \<and> - int (length xs) \<le> i then Inr (xs ! nat (int (length xs) + i))
      else Inl IndexError)"

text \<open>\<open>xss[i][j]\<close>.\<close>

definition py_index2 :: "'a list list \<Rightarrow> int \<Rightarrow> int \<Rightarrow> py_error + 'a" where
  "py_index2 xss i j = (case py_index xss i of Inl e \<Rightarrow> Inl e | Inr xs \<Rightarrow> py_index xs j)"

text \<open>\<open>xss[i][j] = v\<close> for indices that a \<open>range\<close> produced (never negative).\<close>

definition py_store2 :: "'a list list \<Rightarrow> nat \<Rightarrow> nat \<Rightarrow> 'a \<Rightarrow> py_error + 'a list list" where
  "py_store2 xss i j v =
     (if i < length xss \<and> j < length (xss ! i) then Inr (xss[i := (xss ! i)[j := v]])
      else Inl IndexError)"

section \<open>PathFinder\<close>

subsection \<open>\<open>path_finder\<close>: the walk back through the table\<close>

text \<open>
  One turn of the \<open>while\<close> loop of \<open>path_finder\<close>, after the append: the next \<open>(row, col)\<close>.
  The source's condition \<open>row > 0 and (col == 0 or dp[row - 1][col] >= dp[row][col - 1])\<close>
  is evaluated left to right with short-circuiting, so the table is read only when
  \<open>row > 0\<close> and \<open>col \<noteq> 0\<close>.
\<close>

definition path_step :: "int list list \<Rightarrow> int \<Rightarrow> int \<Rightarrow> py_error + int \<times> int" where
  "path_step dp row col =
     (if row > 0 then
        (if col = 0 then Inr (row - 1, col)
         else (case py_index2 dp (row - 1) col of
                 Inl e \<Rightarrow> Inl e
               | Inr up \<Rightarrow>
                   (case py_index2 dp row (col - 1) of
                      Inl e \<Rightarrow> Inl e
                    | Inr left \<Rightarrow> if up \<ge> left then Inr (row - 1, col) else Inr (row, col - 1))))
      else Inr (row, col - 1))"

function path_loop ::
  "int list list \<Rightarrow> int \<Rightarrow> int \<Rightarrow> (int \<times> int) list \<Rightarrow> py_error + (int \<times> int) list" where
  "path_loop dp row col path =
     (if row \<ge> 0 \<and> col \<ge> 0 then
        (case path_step dp row col of
           Inl e \<Rightarrow> Inl e
         | Inr (row', col') \<Rightarrow> path_loop dp row' col' (path @ [(row, col)]))
      else Inr path)"
  by pat_completeness auto
termination
  by (relation "measure (\<lambda>(dp, row, col, path). nat (row + col + 2))")
     (auto simp: path_step_def split: if_splits sum.splits)

declare path_loop.simps [simp del]

definition path_finder :: "int list list \<Rightarrow> py_error + (int \<times> int) list" where
  "path_finder dp =
     (case dp of
        [] \<Rightarrow> Inl IndexError
      | dp0 # _ \<Rightarrow>
          (case path_loop dp (int (length dp) - 1) (int (length dp0) - 1) [] of
             Inl e \<Rightarrow> Inl e
           | Inr path \<Rightarrow> Inr (rev path)))"

subsection \<open>\<open>max_path_finder\<close>: the forward table\<close>

text \<open>
  The body of the inner \<open>for\<close> loop. \<open>ans\<close> starts as \<open>float("-inf")\<close> and
  \<open>max(float("-inf"), x)\<close> is \<open>x\<close> for every integer \<open>x\<close>; the cell \<open>(0, 0)\<close> is skipped,
  so at least one of the two guarded updates runs and \<open>ans\<close> is an integer when it is
  added: the three cases below are the three ways the two guards can come out.
\<close>

definition cell_step ::
  "int list list \<Rightarrow> int list list \<Rightarrow> nat \<Rightarrow> nat \<Rightarrow> py_error + int list list" where
  "cell_step grid dp row col =
     (if row + col = 0 then Inr dp
      else
        (case (if row > 0 \<and> col > 0 then
                 (case py_index2 dp (int row - 1) (int col) of
                    Inl e \<Rightarrow> Inl e
                  | Inr up \<Rightarrow>
                      (case py_index2 dp (int row) (int col - 1) of
                         Inl e \<Rightarrow> Inl e
                       | Inr left \<Rightarrow> Inr (max up left)))
               else if row > 0 then py_index2 dp (int row - 1) (int col)
               else py_index2 dp (int row) (int col - 1)) of
           Inl e \<Rightarrow> Inl e
         | Inr ans \<Rightarrow>
             (case py_index2 grid (int row) (int col) of
                Inl e \<Rightarrow> Inl e
              | Inr g \<Rightarrow> py_store2 dp row col (g + ans))))"

fun fill_row ::
  "int list list \<Rightarrow> int list list \<Rightarrow> nat \<Rightarrow> nat list \<Rightarrow> py_error + int list list" where
  "fill_row grid dp row [] = Inr dp"
| "fill_row grid dp row (col # cols) =
     (case cell_step grid dp row col of
        Inl e \<Rightarrow> Inl e
      | Inr dp' \<Rightarrow> fill_row grid dp' row cols)"

fun fill_rows ::
  "int list list \<Rightarrow> int list list \<Rightarrow> nat \<Rightarrow> nat list \<Rightarrow> py_error + int list list" where
  "fill_rows grid dp m [] = Inr dp"
| "fill_rows grid dp m (row # rows) =
     (case fill_row grid dp row [0..<m] of
        Inl e \<Rightarrow> Inl e
      | Inr dp' \<Rightarrow> fill_rows grid dp' m rows)"

definition max_path_finder :: "int list list \<Rightarrow> py_error + int \<times> (int \<times> int) list" where
  "max_path_finder grid =
     (case py_index grid 0 of
        Inl e \<Rightarrow> Inl e
      | Inr grid0 \<Rightarrow>
          (let n = length grid; m = length grid0;
               dp = replicate n (replicate m 0)
           in case py_index2 grid 0 0 of
                Inl e \<Rightarrow> Inl e
              | Inr g00 \<Rightarrow>
                  (case py_store2 dp 0 0 g00 of
                     Inl e \<Rightarrow> Inl e
                   | Inr dp1 \<Rightarrow>
                       (case fill_rows grid dp1 m [0..<n] of
                          Inl e \<Rightarrow> Inl e
                        | Inr dp2 \<Rightarrow>
                            (case path_finder dp2 of
                               Inl e \<Rightarrow> Inl e
                             | Inr path \<Rightarrow>
                                 (case py_index2 dp2 (int n - 1) (int m - 1) of
                                    Inl e \<Rightarrow> Inl e
                                  | Inr v \<Rightarrow> Inr (v, path)))))))"

section \<open>Services, legs, ODs and passengers\<close>

subsection \<open>The data model\<close>

text \<open>
  None of the classes defines \<open>__eq__\<close> or \<open>__hash__\<close>, so \<open>==\<close>, \<open>in\<close>, dictionary keys
  and set membership compare objects by identity. A \<open>Station\<close> and a \<open>Passenger\<close> are
  created by the caller and never modified; each is represented by its fields together
  with a reference that stands for the object's identity, so that two passengers with
  equal fields are still two passengers. A \<open>Leg\<close> and an \<open>OD\<close> are created by the
  service alone, one object per entry of its \<open>legs\<close> and \<open>ods\<close> lists: they are kept
  in these lists by value, a leg as its two stations, and the \<open>service\<close> back-reference
  of a leg or an OD is the service passed to the functions below.
\<close>

record station =
  station_ref :: nat
  station_name :: string

record leg =
  leg_origin :: station
  leg_destination :: station

record 'a passenger =
  passenger_ref :: nat
  passenger_origin :: station
  passenger_destination :: station
  sale_day_x :: int
  price :: 'a

record 'a od =
  od_origin :: station
  od_destination :: station
  od_passengers :: "'a passenger list"

record 'a service =
  service_name :: string
  departure_date :: int
  legs :: "leg list"
  ods :: "'a od list"

definition Service_init :: "string \<Rightarrow> int \<Rightarrow> 'a service" where
  "Service_init name date =
     \<lparr>service_name = name, departure_date = date, legs = [], ods = []\<rparr>"

definition Leg_init :: "station \<Rightarrow> station \<Rightarrow> leg" where
  "Leg_init origin destination = \<lparr>leg_origin = origin, leg_destination = destination\<rparr>"

definition OD_init :: "station \<Rightarrow> station \<Rightarrow> 'a od" where
  "OD_init origin destination =
     \<lparr>od_origin = origin, od_destination = destination, od_passengers = []\<rparr>"

subsection \<open>Python containers\<close>

text \<open>
  A \<open>dict\<close> keeps its keys in insertion order: storing under a key that is present
  replaces the value where the key stands, a new key goes to the end.
\<close>

fun dict_set :: "('k \<times> 'v) list \<Rightarrow> 'k \<Rightarrow> 'v \<Rightarrow> ('k \<times> 'v) list" where
  "dict_set [] k v = [(k, v)]"
| "dict_set ((k', v') # kvs) k v =
     (if k' = k then (k', v) # kvs else (k', v') # dict_set kvs k v)"

text \<open>\<open>itertools.combinations(xs, 2)\<close>.\<close>

fun combinations2 :: "'a list \<Rightarrow> ('a \<times> 'a) list" where
  "combinations2 [] = []"
| "combinations2 (x # xs) = map (Pair x) xs @ combinations2 xs"

text \<open>\<open>xs.index(x)\<close>: the first position of \<open>x\<close>, or \<open>ValueError\<close>.\<close>

fun list_index :: "'a list \<Rightarrow> 'a \<Rightarrow> py_error + nat" where
  "list_index [] x = Inl ValueError"
| "list_index (y # ys) x =
     (if y = x then Inr 0
      else (case list_index ys x of Inl e \<Rightarrow> Inl e | Inr i \<Rightarrow> Inr (Suc i)))"

text \<open>\<open>xs[i:j]\<close> for \<open>i\<close>, \<open>j\<close> that are not negative.\<close>

definition py_slice :: "'a list \<Rightarrow> nat \<Rightarrow> nat \<Rightarrow> 'a list" where
  "py_slice xs i j = take (j - i) (drop i xs)"

text \<open>The index of the first element that satisfies \<open>P\<close>.\<close>

fun first_index :: "('a \<Rightarrow> bool) \<Rightarrow> 'a list \<Rightarrow> nat option" where
  "first_index P [] = None"
| "first_index P (x # xs) =
     (if P x then Some 0 else map_option Suc (first_index P xs))"

subsection \<open>\<open>Service.load_itinerary\<close>\<close>

definition load_legs :: "'a service \<Rightarrow> station list \<Rightarrow> 'a service" where
  "load_legs s itinerary =
     fold (\<lambda>(station1, station2) s. s\<lparr>legs := legs s @ [Leg_init station1 station2]\<rparr>)
       (zip itinerary (tl itinerary)) s"

definition load_ods :: "'a service \<Rightarrow> station list \<Rightarrow> 'a service" where
  "load_ods s itinerary =
     fold (\<lambda>(origin, destination) s. s\<lparr>ods := ods s @ [OD_init origin destination]\<rparr>)
       (combinations2 itinerary) s"

definition load_itinerary :: "'a service \<Rightarrow> station list \<Rightarrow> 'a service" where
  "load_itinerary s itinerary = load_ods (load_legs s itinerary) itinerary"

subsection \<open>\<open>Service.itinerary\<close>\<close>

text \<open>
  \<open>stations_occurrences\<close> is a \<open>defaultdict(int)\<close>, read only by key: a function with
  value 0 where nothing was counted. \<open>station_connections\<close> is a \<open>dict\<close> whose order
  \<open>_find_departure_and_destination\<close> reads. \<open>count_leg\<close> is the body of the loop over
  the legs.
\<close>

definition count_leg ::
  "leg \<Rightarrow> (station \<Rightarrow> int) \<times> (station \<times> station) list
     \<Rightarrow> (station \<Rightarrow> int) \<times> (station \<times> station) list" where
  "count_leg l oc =
     (case oc of
        (occ, conn) \<Rightarrow>
          (let occ1 = occ(leg_origin l := occ (leg_origin l) + 1);
               occ2 = occ1(leg_destination l := occ1 (leg_destination l) + 1)
           in (occ2, dict_set conn (leg_origin l) (leg_destination l))))"

definition calculate_station_occurrences_and_connections ::
  "'a service \<Rightarrow> (station \<Rightarrow> int) \<times> (station \<times> station) list" where
  "calculate_station_occurrences_and_connections s = fold count_leg (legs s) (\<lambda>_. 0, [])"

text \<open>\<open>next\<close> on a generator that yields nothing raises \<open>StopIteration\<close>.\<close>

definition find_departure_and_destination ::
  "(station \<Rightarrow> int) \<Rightarrow> (station \<times> station) list \<Rightarrow> py_error + station \<times> station" where
  "find_departure_and_destination station_occurrences station_connections =
     (case find (\<lambda>(origin, _). station_occurrences origin = 1) station_connections of
        None \<Rightarrow> Inl StopIteration
      | Some (departure_station, _) \<Rightarrow>
          (case find (\<lambda>(_, destination). station_occurrences destination = 1)
                  station_connections of
             None \<Rightarrow> Inl StopIteration
           | Some (_, destination_station) \<Rightarrow> Inr (departure_station, destination_station)))"

text \<open>
  The \<open>while True\<close> loop of \<open>_calculate_itinerary\<close>. It need not end (a cycle in the
  connections): the result \<open>None\<close> stands for a loop that never returns. A station
  without a connection raises \<open>KeyError\<close>.
\<close>

partial_function (option) itinerary_loop ::
  "(station \<times> station) list \<Rightarrow> station \<Rightarrow> station \<Rightarrow> station list
     \<Rightarrow> (py_error + station list) option" where
  "itinerary_loop station_connections final_destination current_station itinerary =
     (let itinerary' = itinerary @ [current_station]
      in if current_station = final_destination then Some (Inr itinerary')
         else (case map_of station_connections current_station of
                 None \<Rightarrow> Some (Inl KeyError)
               | Some next_station \<Rightarrow>
                   itinerary_loop station_connections final_destination next_station
                     itinerary'))"

declare itinerary_loop.simps [code]

definition calculate_itinerary :: "'a service \<Rightarrow> (py_error + station list) option" where
  "calculate_itinerary s =
     (case calculate_station_occurrences_and_connections s of
        (station_occurrences, station_connections) \<Rightarrow>
          (case find_departure_and_destination station_occurrences station_connections of
             Inl e \<Rightarrow> Some (Inl e)
           | Inr (departure, final_destination) \<Rightarrow>
               itinerary_loop station_connections final_destination departure []))"

definition itinerary :: "'a service \<Rightarrow> (py_error + station list) option" where
  "itinerary s = calculate_itinerary s"

subsection \<open>\<open>Service.load_passenger_manifest\<close>\<close>

text \<open>
  The method changes the ODs while it runs and can raise in the middle: the result is
  the exception raised, if any, and the service as the call leaves it.
\<close>

definition od_matches :: "'a passenger \<Rightarrow> 'a od \<Rightarrow> bool" where
  "od_matches p od =
     (od_origin od = passenger_origin p \<and> od_destination od = passenger_destination p)"

fun load_passenger_manifest ::
  "'a service \<Rightarrow> 'a passenger list \<Rightarrow> py_error option \<times> 'a service" where
  "load_passenger_manifest s [] = (None, s)"
| "load_passenger_manifest s (p # ps) =
     (case first_index (od_matches p) (ods s) of
        None \<Rightarrow> (Some StopIteration, s)
      | Some i \<Rightarrow>
          load_passenger_manifest
            (s\<lparr>ods := (ods s)[i := (ods s ! i)
                        \<lparr>od_passengers := od_passengers (ods s ! i) @ [p]\<rparr>]\<rparr>) ps)"

subsection \<open>\<open>OD.legs\<close> and \<open>Leg.passengers\<close>\<close>

definition od_legs :: "'a service \<Rightarrow> 'a od \<Rightarrow> (py_error + leg list) option" where
  "od_legs s od =
     (case itinerary s of
        None \<Rightarrow> None
      | Some (Inl e) \<Rightarrow> Some (Inl e)
      | Some (Inr stations) \<Rightarrow>
          (case list_index stations (od_origin od) of
             Inl e \<Rightarrow> Some (Inl e)
           | Inr origin_index \<Rightarrow>
               (case list_index stations (od_destination od) of
                  Inl e \<Rightarrow> Some (Inl e)
                | Inr destination_index \<Rightarrow>
                    Some (Inr (py_slice (legs s) origin_index destination_index)))))"

text \<open>
  The set comprehension of \<open>Leg.passengers\<close>, one OD after the other; \<open>od.legs\<close> is
  computed for each OD and may raise or never return.
\<close>

fun passengers_set ::
  "'a service \<Rightarrow> leg \<Rightarrow> 'a od list \<Rightarrow> 'a passenger set
     \<Rightarrow> (py_error + 'a passenger set) option" where
  "passengers_set s l [] acc = Some (Inr acc)"
| "passengers_set s l (od # rest) acc =
     (case od_legs s od of
        None \<Rightarrow> None
      | Some (Inl e) \<Rightarrow> Some (Inl e)
      | Some (Inr ls) \<Rightarrow>
          passengers_set s l rest (if l \<in> set ls then acc \<union> set (od_passengers od) else acc))"

text \<open>
  \<open>list(passengers_set)\<close> lists the set in an order that depends on the objects'
  hashes: \<open>leg_passengers s l xs\<close> says that \<open>xs\<close> is one of the lists the property can
  return.
\<close>

definition leg_passengers :: "'a service \<Rightarrow> leg \<Rightarrow> 'a passenger list \<Rightarrow> bool" where
  "leg_passengers s l xs =
     (case passengers_set s l (ods s) {} of
        Some (Inr ps) \<Rightarrow> distinct xs \<and> set xs = ps
      | _ \<Rightarrow> False)"

subsection \<open>\<open>OD.history\<close>\<close>

text \<open>
  \<open>history_map\<close> is a \<open>defaultdict\<close> whose missing entries start as \<open>[0, 0.0]\<close>. The
  price type is left open: the report only adds prices, starting from zero.
\<close>

definition history_map :: "('a::{zero,plus}) passenger list \<Rightarrow> (int \<times> int \<times> 'a) list" where
  "history_map ps =
     fold (\<lambda>p m.
             let info = (case map_of m (sale_day_x p) of None \<Rightarrow> (0, 0) | Some e \<Rightarrow> e)
             in dict_set m (sale_day_x p) (fst info + 1, snd info + price p))
       ps []"

text \<open>
  The second loop: row \<open>i\<close> takes the bookings and the revenue of row \<open>i - 1\<close>, which
  the loop has already made cumulative.
\<close>

definition accumulate :: "(int \<times> int \<times> ('a::plus)) list \<Rightarrow> (int \<times> int \<times> 'a) list" where
  "accumulate history_list =
     fold (\<lambda>i hl.
             (case (hl ! i, hl ! (i - 1)) of
                ((d, b, r), (_, b', r')) \<Rightarrow> hl[i := (d, b + b', r + r')]))
       [1..<length history_list] history_list"

text \<open>
  \<open>sorted\<close> compares the rows as lists, first by their day; the days are the keys of a
  dictionary, hence distinct, and decide the order alone.
\<close>

definition history :: "('a::{zero,plus}) od \<Rightarrow> (int \<times> int \<times> 'a) list" where
  "history od = accumulate (sort_key fst (history_map (od_passengers od)))"

subsection \<open>The script's example\<close>

text \<open>
  The stations, the service and the manifest that the module builds at its end. The
  departure date (a week after the day the script runs) is a day number; no function
  below reads it.
\<close>

definition ply :: station where
  "ply = \<lparr>station_ref = 0, station_name = ''ply''\<rparr>"

definition lpd :: station where
  "lpd = \<lparr>station_ref = 1, station_name = ''lpd''\<rparr>"

definition msc :: station where
  "msc = \<lparr>station_ref = 2, station_name = ''msc''\<rparr>"

definition Passenger_init :: "nat \<Rightarrow> station \<Rightarrow> station \<Rightarrow> int \<Rightarrow> 'a \<Rightarrow> 'a passenger" where
  "Passenger_init r origin destination day p =
     \<lparr>passenger_ref = r, passenger_origin = origin, passenger_destination = destination,
      sale_day_x = day, price = p\<rparr>"

definition example_service :: "int service" where
  "example_service = load_itinerary (Service_init ''7601'' 7) [ply, lpd, msc]"

definition example_manifest :: "int passenger list" where
  "example_manifest =
     [Passenger_init 0 ply lpd (- 30) 20,
      Passenger_init 1 ply lpd (- 25) 30,
      Passenger_init 2 ply lpd (- 20) 40,
      Passenger_init 3 ply lpd (- 20) 40,
      Passenger_init 4 ply msc (- 10) 50]"

definition example_loaded :: "int service" where
  "example_loaded = snd (load_passenger_manifest example_service example_manifest)"

subsection \<open>Reference definitions for the proofs\<close>

text \<open>
  What a manifest leaves in each OD: the passengers it had, then those passengers of
  the manifest, in the manifest's order, whose first matching OD it is.
\<close>

definition assign :: "'a od list \<Rightarrow> 'a passenger list \<Rightarrow> 'a od list" where
  "assign os ps =
     map (\<lambda>j. (os ! j)\<lparr>od_passengers :=
                 od_passengers (os ! j) @
                 filter (\<lambda>p. first_index (od_matches p) os = Some j) ps\<rparr>)
       [0..<length os]"

section \<open>PathFinder: the tie-break\<close>

text \<open>
  Claim C3. In the backward walk, when the cell above and the cell to the left both
  exist and hold the same table value, the step taken is up: the row is decremented
  and the column kept. On the two matrices of the script, \<open>max_path_finder\<close> returns
  \<open>(11, [(0,0),(0,1),(0,2),(1,2)])\<close> and \<open>(13, [(0,0),(1,0),(1,1),(1,2)])\<close>.
\<close>

theorem tie_break_prefers_up:
  "(0 < row \<and> 0 < col \<and> py_index2 dp (row - 1) col = Inr v
      \<and> py_index2 dp row (col - 1) = Inr v \<longrightarrow>
      path_step dp row col = Inr (row - 1, col) \<and>
      path_loop dp row col path = path_loop dp (row - 1) col (path @ [(row, col)]))
   \<and> max_path_finder [[1, 1, 8], [3, 2, 1]] = Inr (11, [(0, 0), (0, 1), (0, 2), (1, 2)])
   \<and> max_path_finder [[1, 2, 3], [3, 4, 5]] = Inr (13, [(0, 0), (1, 0), (1, 1), (1, 2)])"
proof -
  have step: "0 < row \<and> 0 < col \<and> py_index2 dp (row - 1) col = Inr v
      \<and> py_index2 dp row (col - 1) = Inr v \<longrightarrow>
      path_step dp row col = Inr (row - 1, col) \<and>
      path_loop dp row col path = path_loop dp (row - 1) col (path @ [(row, col)])"
    by (simp add: path_step_def path_loop.simps[of dp row col])
  have ex1: "max_path_finder [[1, 1, 8], [3, 2, 1]] = Inr (11, [(0, 0), (0, 1), (0, 2), (1, 2)])"
    by code_simp
  have ex2: "max_path_finder [[1, 2, 3], [3, 4, 5]] = Inr (13, [(0, 0), (1, 0), (1, 1), (1, 2)])"
    by code_simp
  from step ex1 ex2 show ?thesis by blast
qed

theorem tie_break_prefers_up_witness:
  "path_step [[1, 2], [2, 5]] 1 1 = Inr (0, 1) \<and>
   path_loop [[1, 2], [2, 5]] 1 1 [] = path_loop [[1, 2], [2, 5]] 0 1 [(1, 1)]"
  using tie_break_prefers_up [where row = 1 and col = 1 and dp = "[[1, 2], [2, 5]]"
      and v = 2 and path = "[]"]
  by (simp add: py_index2_def py_index_def)

section \<open>Loading a passenger manifest\<close>

lemma first_index_None: "first_index P xs = None \<longleftrightarrow> (\<forall>x \<in> set xs. \<not> P x)"
  by (induction xs) auto

lemma first_index_Some:
  "first_index P xs = Some i \<longleftrightarrow> i < length xs \<and> P (xs ! i) \<and> (\<forall>j < i. \<not> P (xs ! j))"
proof (induction xs arbitrary: i)
  case Nil
  then show ?case by simp
next
  case (Cons x xs)
  show ?case
  proof (cases "P x")
    case True
    then show ?thesis by (cases i) auto
  next
    case False
    then show ?thesis
      apply (cases i)
       apply (auto simp: Cons.IH)
      using less_Suc_eq_0_disj apply auto
      done
  qed
qed

lemma first_index_cong:
  "map P xs = map P ys \<Longrightarrow> first_index P xs = first_index P ys"
proof (induction xs arbitrary: ys)
  case Nil
  then show ?case by simp
next
  case (Cons x xs)
  then obtain y ys' where ys: "ys = y # ys'" by (cases ys) auto
  with Cons.prems have "P x = P y" "map P xs = map P ys'" by simp_all
  with Cons.IH[of ys'] ys show ?case by simp
qed

lemma first_index_append_passenger:
  "first_index (od_matches q) (os[i := (os ! i)\<lparr>od_passengers := xs\<rparr>]) =
   first_index (od_matches q) os"
proof (rule first_index_cong)
  have "od_matches q ((os ! i)\<lparr>od_passengers := xs\<rparr>) = od_matches q (os ! i)"
    by (simp add: od_matches_def)
  then show "map (od_matches q) (os[i := (os ! i)\<lparr>od_passengers := xs\<rparr>]) =
      map (od_matches q) os"
    by (cases "i < length os")
       (simp_all add: map_update list_update_same_conv list_update_beyond)
qed

lemma assign_Nil: "assign os [] = os"
  by (simp add: assign_def map_nth)

lemma assign_Cons:
  assumes "first_index (od_matches p) os = Some i"
  shows "assign (os[i := (os ! i)\<lparr>od_passengers := od_passengers (os ! i) @ [p]\<rparr>]) ps =
         assign os (p # ps)"
proof -
  have i: "i < length os" using assms by (simp add: first_index_Some)
  show ?thesis
    unfolding assign_def
    by (rule nth_equalityI)
       (auto simp: first_index_append_passenger nth_list_update assms i)
qed

text \<open>
  The whole method in one equation: it raises exactly when some passenger has no OD,
  and it leaves the service with the passengers before the first such one assigned.
\<close>

lemma load_passenger_manifest_eq:
  "load_passenger_manifest s ps =
     ((if \<forall>p \<in> set ps. first_index (od_matches p) (ods s) \<noteq> None then None
       else Some StopIteration),
      s\<lparr>ods := assign (ods s)
                 (takeWhile (\<lambda>p. first_index (od_matches p) (ods s) \<noteq> None) ps)\<rparr>)"
proof (induction ps arbitrary: s)
  case Nil
  then show ?case by (simp add: assign_Nil)
next
  case (Cons p ps)
  show ?case
  proof (cases "first_index (od_matches p) (ods s)")
    case None
    then show ?thesis by (simp add: assign_Nil)
  next
    case (Some i)
    then show ?thesis
      by (simp add: Cons.IH first_index_append_passenger assign_Cons)
  qed
qed

lemma first_index_not_None: "first_index P xs \<noteq> None \<longleftrightarrow> (\<exists>x \<in> set xs. P x)"
  by (simp add: first_index_None)

lemma first_index_unique_key:
  assumes "distinct (map (\<lambda>od. (od_origin od, od_destination od)) os)" and "j < length os"
  shows "first_index (od_matches p) os = Some j \<longleftrightarrow> od_matches p (os ! j)"
proof
  assume "first_index (od_matches p) os = Some j"
  then show "od_matches p (os ! j)" by (simp add: first_index_Some)
next
  assume m: "od_matches p (os ! j)"
  have "\<not> od_matches p (os ! i)" if "i < j" for i
  proof
    assume "od_matches p (os ! i)"
    with m have "map (\<lambda>od. (od_origin od, od_destination od)) os ! i =
        map (\<lambda>od. (od_origin od, od_destination od)) os ! j"
      using that assms(2) by (simp add: od_matches_def)
    moreover have "i < length (map (\<lambda>od. (od_origin od, od_destination od)) os)"
      "j < length (map (\<lambda>od. (od_origin od, od_destination od)) os)"
      using that assms(2) by simp_all
    ultimately have "i = j"
      using nth_eq_iff_index_eq[OF assms(1)] by blast
    with that show False by simp
  qed
  with m assms(2) show "first_index (od_matches p) os = Some j"
    by (simp add: first_index_Some)
qed

lemma assign_length: "length (assign os ps) = length os"
  by (simp add: assign_def)

lemma assign_nth:
  "j < length os \<Longrightarrow> assign os ps ! j =
     (os ! j)\<lparr>od_passengers := od_passengers (os ! j) @
        filter (\<lambda>p. first_index (od_matches p) os = Some j) ps\<rparr>"
  by (simp add: assign_def)

text \<open>
  Claim C8. When every passenger of the manifest has an OD with its origin and
  destination, the call returns normally, and each OD ends with the passengers it had
  followed by the passengers of the manifest that it is the first match of, in the
  manifest's order; where no two ODs of the service share origin and destination (as
  after \<open>load_itinerary\<close> on distinct stations), these are the manifest's passengers with
  the OD's origin and destination. Nothing else of the service changes.
\<close>

theorem manifest_assigns_passengers:
  assumes "\<forall>p \<in> set ps. \<exists>od \<in> set (ods s). od_matches p od"
  shows "\<exists>s'. load_passenger_manifest s ps = (None, s') \<and>
           legs s' = legs s \<and> length (ods s') = length (ods s) \<and>
           (\<forall>j < length (ods s).
              od_origin (ods s' ! j) = od_origin (ods s ! j) \<and>
              od_destination (ods s' ! j) = od_destination (ods s ! j) \<and>
              od_passengers (ods s' ! j) =
                od_passengers (ods s ! j) @
                filter (\<lambda>p. first_index (od_matches p) (ods s) = Some j) ps \<and>
              (distinct (map (\<lambda>od. (od_origin od, od_destination od)) (ods s)) \<longrightarrow>
                 od_passengers (ods s' ! j) =
                   od_passengers (ods s ! j) @ filter (\<lambda>p. od_matches p (ods s ! j)) ps))"
proof -
  have all: "\<forall>p \<in> set ps. first_index (od_matches p) (ods s) \<noteq> None"
    using assms by (simp add: first_index_None)
  then have tw: "takeWhile (\<lambda>p. first_index (od_matches p) (ods s) \<noteq> None) ps = ps"
    by (simp add: takeWhile_eq_all_conv)
  define s' where "s' = s\<lparr>ods := assign (ods s) ps\<rparr>"
  have run: "load_passenger_manifest s ps = (None, s')"
    unfolding load_passenger_manifest_eq[of s ps] tw s'_def using all by simp
  have "od_passengers (ods s' ! j) =
          od_passengers (ods s ! j) @ filter (\<lambda>p. od_matches p (ods s ! j)) ps"
    if "j < length (ods s)" "distinct (map (\<lambda>od. (od_origin od, od_destination od)) (ods s))" for j
    using that by (simp add: s'_def assign_nth first_index_unique_key)
  then show ?thesis
    using run by (intro exI[of _ s']) (simp add: s'_def assign_length assign_nth)
qed

theorem manifest_assigns_passengers_witness:
  "\<exists>s'. load_passenger_manifest example_service example_manifest = (None, s') \<and>
     legs s' = legs example_service \<and>
     map (\<lambda>od. map passenger_ref (od_passengers od)) (ods s') = [[0, 1, 2, 3], [4], []]"
proof -
  have h: "\<forall>p \<in> set example_manifest. \<exists>od \<in> set (ods example_service). od_matches p od"
    by code_simp
  from manifest_assigns_passengers[OF h] obtain s' where
    run: "load_passenger_manifest example_service example_manifest = (None, s')" and
    lg: "legs s' = legs example_service"
    by (elim exE conjE)
  have "map (\<lambda>od. map passenger_ref (od_passengers od))
     (ods (snd (load_passenger_manifest example_service example_manifest))) =
     [[0, 1, 2, 3], [4], []]"
    by code_simp
  with run lg show ?thesis by simp
qed

text \<open>
  Claim C10. The method is not atomic: when the passengers \<open>pre\<close> all have an OD and
  the next passenger \<open>q\<close> has none, the call raises at \<open>q\<close> and leaves the service as
  loading \<open>pre\<close> alone leaves it, every passenger of \<open>pre\<close> appended to its OD; the
  passengers after \<open>q\<close> are not read.
\<close>

theorem manifest_not_atomic:
  assumes "\<forall>p \<in> set pre. \<exists>od \<in> set (ods s). od_matches p od"
    and "\<not> (\<exists>od \<in> set (ods s). od_matches q od)"
  shows "\<exists>s'. load_passenger_manifest s (pre @ q # rest) = (Some StopIteration, s') \<and>
           load_passenger_manifest s pre = (None, s') \<and>
           length (ods s') = length (ods s) \<and>
           (\<forall>j < length (ods s).
              od_passengers (ods s' ! j) =
                od_passengers (ods s ! j) @
                filter (\<lambda>p. first_index (od_matches p) (ods s) = Some j) pre) \<and>
           (\<forall>p \<in> set pre. \<exists>j < length (ods s).
              od_matches p (ods s ! j) \<and> p \<in> set (od_passengers (ods s' ! j)))"
proof -
  have all: "\<forall>p \<in> set pre. first_index (od_matches p) (ods s) \<noteq> None"
    using assms(1) by (simp add: first_index_None)
  have q: "first_index (od_matches q) (ods s) = None"
    using assms(2) by (simp add: first_index_None)
  have tw: "takeWhile (\<lambda>p. first_index (od_matches p) (ods s) \<noteq> None) (pre @ q # rest) = pre"
    using all q by (simp add: takeWhile_append2)
  have tw': "takeWhile (\<lambda>p. first_index (od_matches p) (ods s) \<noteq> None) pre = pre"
    using all by (simp add: takeWhile_eq_all_conv)
  define s' where "s' = s\<lparr>ods := assign (ods s) pre\<rparr>"
  have run: "load_passenger_manifest s (pre @ q # rest) = (Some StopIteration, s')"
    unfolding load_passenger_manifest_eq[of s "pre @ q # rest"] tw s'_def using q by auto
  have run': "load_passenger_manifest s pre = (None, s')"
    unfolding load_passenger_manifest_eq[of s pre] tw' s'_def using all by simp
  have mem: "\<exists>j < length (ods s). od_matches p (ods s ! j) \<and> p \<in> set (od_passengers (ods s' ! j))"
    if "p \<in> set pre" for p
  proof -
    from all that obtain j where j: "first_index (od_matches p) (ods s) = Some j" by auto
    then have "j < length (ods s)" "od_matches p (ods s ! j)" by (simp_all add: first_index_Some)
    moreover have "p \<in> set (od_passengers (ods s' ! j))"
      using that j \<open>j < length (ods s)\<close> by (simp add: s'_def assign_nth)
    ultimately show ?thesis by blast
  qed
  show ?thesis
    using run run' mem by (intro exI[of _ s']) (simp add: s'_def assign_length assign_nth)
qed

theorem manifest_not_atomic_witness:
  "\<exists>s'. load_passenger_manifest example_service (example_manifest @ Passenger_init 5 lpd ply (- 3) 10 # [Passenger_init 6 lpd msc (- 2) 10])
         = (Some StopIteration, s') \<and>
       load_passenger_manifest example_service example_manifest = (None, s') \<and>
       map (\<lambda>od. map passenger_ref (od_passengers od)) (ods s') = [[0, 1, 2, 3], [4], []]"
proof -
  have h: "\<forall>p \<in> set example_manifest. \<exists>od \<in> set (ods example_service). od_matches p od"
    by code_simp
  have n: "\<not> (\<exists>od \<in> set (ods example_service). od_matches (Passenger_init 5 lpd ply (- 3) 10 :: int passenger) od)"
    by code_simp
  from manifest_not_atomic[OF h n, of "[Passenger_init 6 lpd msc (- 2) 10]"] obtain s' where
    run: "load_passenger_manifest example_service (example_manifest @ Passenger_init 5 lpd ply (- 3) 10 # [Passenger_init 6 lpd msc (- 2) 10])
         = (Some StopIteration, s')" and
    run': "load_passenger_manifest example_service example_manifest = (None, s')"
    by (elim exE conjE)
  have "snd (load_passenger_manifest example_service example_manifest) = s'"
    using run' by simp
  moreover have "map (\<lambda>od. map passenger_ref (od_passengers od))
     (ods (snd (load_passenger_manifest example_service example_manifest))) = [[0, 1, 2, 3], [4], []]"
    by code_simp
  ultimately show ?thesis using run run' by simp
qed

text \<open>
  Claim C5, as the code has it. A passenger without an OD makes \<open>next\<close> raise
  \<open>StopIteration\<close>, which leaves the method at once: the service is left as loading the
  passengers before the first unmatched one leaves it. \<open>StopIteration\<close> is not a
  \<open>LookupError\<close>, which the example below shows on the script's service with a passenger
  travelling in the reverse direction.
\<close>

theorem manifest_unmatched_raises_StopIteration:
  assumes "\<exists>p \<in> set ps. \<not> (\<exists>od \<in> set (ods s). od_matches p od)"
  shows "fst (load_passenger_manifest s ps) = Some StopIteration \<and>
         load_passenger_manifest s (takeWhile (\<lambda>p. \<exists>od \<in> set (ods s). od_matches p od) ps) =
           (None, snd (load_passenger_manifest s ps))"
proof -
  let ?P = "\<lambda>p. first_index (od_matches p) (ods s) \<noteq> None"
  have P: "?P = (\<lambda>p. \<exists>od \<in> set (ods s). od_matches p od)"
    by (simp add: first_index_None)
  have 1: "fst (load_passenger_manifest s ps) = Some StopIteration"
    unfolding load_passenger_manifest_eq[of s ps] using assms by (auto simp: first_index_None)
  have "\<forall>p \<in> set (takeWhile ?P ps). ?P p"
    by (auto dest: set_takeWhileD)
  then have 2: "load_passenger_manifest s (takeWhile ?P ps) =
      (None, snd (load_passenger_manifest s ps))"
    unfolding load_passenger_manifest_eq[of s ps] load_passenger_manifest_eq[of s "takeWhile ?P ps"]
    by simp
  from 1 2 show ?thesis unfolding P by simp
qed

theorem manifest_unmatched_raises_StopIteration_witness:
  "fst (load_passenger_manifest example_service (example_manifest @ [Passenger_init 5 lpd ply (- 3) 10, Passenger_init 6 lpd msc (- 2) 10])) = Some StopIteration \<and>
   load_passenger_manifest example_service example_manifest =
      (None, snd (load_passenger_manifest example_service (example_manifest @ [Passenger_init 5 lpd ply (- 3) 10, Passenger_init 6 lpd msc (- 2) 10])))"
proof -
  have h: "\<exists>p \<in> set (example_manifest @ [Passenger_init 5 lpd ply (- 3) 10, Passenger_init 6 lpd msc (- 2) 10]).
     \<not> (\<exists>od \<in> set (ods example_service). od_matches p od)"
    by code_simp
  have tw: "takeWhile (\<lambda>p. \<exists>od \<in> set (ods example_service). od_matches p od)
     (example_manifest @ [Passenger_init 5 lpd ply (- 3) 10, Passenger_init 6 lpd msc (- 2) 10]) = example_manifest"
    by code_simp
  from manifest_unmatched_raises_StopIteration[OF h] show ?thesis
    unfolding tw by simp
qed

theorem manifest_error_is_not_LookupError:
  "fst (load_passenger_manifest example_service [Passenger_init 5 lpd ply (- 3) 10]) = Some StopIteration
   \<and> \<not> is_LookupError StopIteration"
  by code_simp

end
